theory Spec2Isabelle
  imports Main "HOL-Library.Multiset" "HOL-Library.Sublist"
begin

section \<open>Data model\<close>

text \<open>
  A chat message as the handler reads it: an object with a \<open>role\<close> and a \<open>content\<close>.
  The handler copies messages through unchanged and never inspects them.
\<close>

record chat_message =
  role :: string
  content :: string

text \<open>
  The inbound request, as far as the handler looks at it: the value of the
  \<open>x-forwarded-for\<close> header (\<open>None\<close> when \<open>headers.get\<close> answers \<open>null\<close>) and the
  \<open>messages\<close> member of the parsed JSON payload. \<open>None\<close> stands for a member that is
  absent or \<open>null\<close> (falsy in JavaScript); \<open>Some ms\<close> is an array, and every array,
  the empty one included, is truthy.
\<close>

record request =
  x_forwarded_for :: "string option"
  payload_messages :: "chat_message list option"

text \<open>The JSON response: HTTP status and the two members of the body.\<close>

record response =
  http_status :: nat
  body_role :: string
  body_content :: "string option"

text \<open>The object returned by \<open>checkRateLimit\<close>.\<close>

record limit =
  allowed :: bool
  reason :: "string option"
  status :: nat
  new :: bool

text \<open>The body of the upstream chat-completion call.\<close>

record post_body =
  model :: "string option"
  messages :: "chat_message list"
  maxTokens :: nat

text \<open>
  \<open>response.data\<close> of a resolved upstream call. \<open>Data c\<close> is a value on which
  \<open>data.choices?.[0]?.message?.content\<close> evaluates to \<open>c\<close> (\<open>None\<close> when a link of the
  chain is missing); \<open>DataNull\<close> is a \<open>null\<close> body, on which reading \<open>data.choices\<close>
  throws.
\<close>

datatype response_data = DataNull | Data "string option"

text \<open>
  One \<open>axios.post\<close>: the promise rejects (transport error or a status outside 2xx) with
  an error carrying a message, or resolves with response data.
\<close>

datatype upstream_result = Rejected string | Resolved response_data

datatype js_error = Error string | TypeError

text \<open>The effects a request has on the outside world, in the order they happen.\<close>

datatype event =
    RedisGet string
  | RedisSet string int nat
  | RedisIncr string
  | AxiosPost string post_body
  | ConsoleLogUrl "string option"
  | ConsoleLogPayload "chat_message list option"
  | ConsoleWarn string string
  | ConsoleError js_error

text \<open>
  What the process and its surroundings provide: the six credential variables of the
  environment, the model identifier, the store's URL, the source of randomness
  (\<open>random k\<close> is the k-th draw of a dispatch), the upstream provider
  (\<open>axios_post n key body\<close> is the outcome of the n-th call of a dispatch), the
  store's clock when the handler reads the client's record (\<open>now\<close>) and the seconds
  that pass from that read to the handler's write (\<open>elapsed\<close>): the handler awaits
  the payload and the whole dispatch in between, for as long as they take.
\<close>

record env =
  AI_API_KEYS :: "string option list"
  AI_MODEL :: "string option"
  UPSTASH_REDIS_REST_URL :: "string option"
  random :: "nat \<Rightarrow> nat"
  axios_post :: "nat \<Rightarrow> string \<Rightarrow> post_body \<Rightarrow> upstream_result"
  now :: nat
  elapsed :: nat

section \<open>The usage store\<close>

text \<open>
  The durable key-value store holds, for a key, a number and an optional time of
  expiry. Every operation happens at an instant \<open>t\<close> of the store's clock. \<open>GET\<close>
  answers the number of a record that has not expired by then, \<open>SET\<close> with \<open>ex\<close>
  writes a record that expires \<open>ex\<close> seconds later, \<open>INCR\<close> adds one to a record that
  is still live and keeps its expiry, and creates a record of value 1 without expiry
  where there is none or it has expired.
\<close>

record usage_record =
  used :: int
  expiry :: "nat option"

type_synonym redis_store = "string \<Rightarrow> usage_record option"

definition live :: "nat \<Rightarrow> usage_record \<Rightarrow> bool" where
  "live t r = (case expiry r of None \<Rightarrow> True | Some x \<Rightarrow> t < x)"

definition redis_get :: "nat \<Rightarrow> redis_store \<Rightarrow> string \<Rightarrow> int option" where
  "redis_get t s k =
     (case s k of
        None \<Rightarrow> None
      | Some r \<Rightarrow> if live t r then Some (used r) else None)"

definition redis_set :: "nat \<Rightarrow> redis_store \<Rightarrow> string \<Rightarrow> int \<Rightarrow> nat \<Rightarrow> redis_store" where
  "redis_set t s k v ex = s(k \<mapsto> \<lparr>used = v, expiry = Some (t + ex)\<rparr>)"

definition redis_incr :: "nat \<Rightarrow> redis_store \<Rightarrow> string \<Rightarrow> redis_store" where
  "redis_incr t s k =
     (case s k of
        None \<Rightarrow> s(k \<mapsto> \<lparr>used = 1, expiry = None\<rparr>)
      | Some r \<Rightarrow>
          if live t r then s(k \<mapsto> r\<lparr>used := used r + 1\<rparr>)
          else s(k \<mapsto> \<lparr>used = 1, expiry = None\<rparr>))"

section \<open>Credential pool\<close>

text \<open>\<open>filter(Boolean)\<close> keeps the variables that are set and not the empty string.\<close>

definition keys :: "env \<Rightarrow> string list" where
  "keys e = concat (map (\<lambda>v. case v of None \<Rightarrow> [] | Some k \<Rightarrow> if k = [] then [] else [k])
                        (AI_API_KEYS e))"

section \<open>Failover dispatcher\<close>

text \<open>
  The loop of \<open>shuffle\<close>, for \<open>i\<close> from \<open>length - 1\<close> down to 1. \<open>Math.random()\<close> lies
  in [0, 1), so \<open>Math.floor(Math.random() * (i + 1))\<close> is one of 0..i: the k-th draw
  \<open>rnd k\<close> is reduced into that range. The swap writes position \<open>i\<close>, then \<open>j\<close>,
  both from the values read before the writes. On the empty array the loop starts at
  -1 and does not run, as it does not from 0.
\<close>

fun shuffle_loop :: "(nat \<Rightarrow> nat) \<Rightarrow> nat \<Rightarrow> nat \<Rightarrow> 'a list \<Rightarrow> 'a list" where
  "shuffle_loop rnd k 0 array = array"
| "shuffle_loop rnd k (Suc i') array =
     (let i = Suc i';
          j = rnd k mod (i + 1)
      in shuffle_loop rnd (Suc k) i' (array[i := array ! j, j := array ! i]))"

definition shuffle :: "(nat \<Rightarrow> nat) \<Rightarrow> 'a list \<Rightarrow> 'a list" where
  "shuffle rnd array = shuffle_loop rnd 0 (length array - 1) array"

text \<open>
  The \<open>for (const key of shuffledKeys)\<close> loop: the n-th call is made with \<open>key\<close>; a
  resolved call returns its data at once, a rejected one is logged with the key and
  the error's message, and the loop goes on. \<open>None\<close>: the loop ran to its end.
\<close>

fun fetch_loop ::
  "(nat \<Rightarrow> string \<Rightarrow> post_body \<Rightarrow> upstream_result) \<Rightarrow> post_body \<Rightarrow> nat \<Rightarrow> string list
     \<Rightarrow> response_data option \<times> event list" where
  "fetch_loop post b n [] = (None, [])"
| "fetch_loop post b n (key # rest) =
     (case post n key b of
        Resolved d \<Rightarrow> (Some d, [AxiosPost key b])
      | Rejected m \<Rightarrow>
          (let (r, es) = fetch_loop post b (Suc n) rest
           in (r, AxiosPost key b
                    # ConsoleWarn (''Key failed: '' @ key @ '', retrying...'') m # es)))"

text \<open>\<open>maxTokens || 5000\<close>: an absent or zero \<open>maxTokens\<close> becomes 5000.\<close>

definition fetchWithRotatedKey ::
  "env \<Rightarrow> chat_message list \<Rightarrow> nat option \<Rightarrow> (js_error + response_data) \<times> event list" where
  "fetchWithRotatedKey e msgs mt =
     (let shuffledKeys = shuffle (random e) (keys e);
          b = \<lparr>model = AI_MODEL e, messages = msgs,
               maxTokens = (case mt of None \<Rightarrow> 5000 | Some m \<Rightarrow> if m = 0 then 5000 else m)\<rparr>
      in case fetch_loop (axios_post e) b 0 shuffledKeys of
           (Some d, es) \<Rightarrow> (Inr d, es)
         | (None, es) \<Rightarrow> (Inl (Error ''All keys failed. Please try again later.''), es))"

section \<open>Gateway handler\<close>

definition IP_LIMIT :: int where
  "IP_LIMIT = 100"

text \<open>
  \<open>String.prototype.split\<close> with a one-character separator. The result always has
  a first piece (the empty string splits into one empty piece), so it is given as
  that piece and the list of the pieces after it.
\<close>

fun split :: "char \<Rightarrow> string \<Rightarrow> string \<times> string list" where
  "split sep [] = ([], [])"
| "split sep (c # cs) =
     (case split sep cs of
        (w, ws) \<Rightarrow> if c = sep then ([], w # ws) else (c # w, ws))"

text \<open>
  The white space and line terminators of JavaScript among the code units a header
  value can hold (0 to 255): tab, line feed, vertical tab, form feed, carriage
  return, space and no-break space.
\<close>

definition isWhiteSpace :: "char \<Rightarrow> bool" where
  "isWhiteSpace c =
     (c \<in> set [CHR 0x09, CHR 0x0A, CHR 0x0B, CHR 0x0C, CHR 0x0D, CHR 0x20, CHR 0xA0])"

definition trim :: "string \<Rightarrow> string" where
  "trim s = rev (dropWhile isWhiteSpace (rev (dropWhile isWhiteSpace s)))"

text \<open>
  \<open>getIP\<close>: the header, or the empty string when it is \<open>null\<close> or empty; split at
  commas; piece 0; trimmed.
\<close>

definition getIP :: "request \<Rightarrow> string" where
  "getIP req =
     trim (fst (split CHR '','' (case x_forwarded_for req of None \<Rightarrow> [] | Some v \<Rightarrow> v)))"

text \<open>The store key of a client, \<open>AIDemoUsage:${IP}\<close>.\<close>

definition usage_key :: "string \<Rightarrow> string" where
  "usage_key IP = ''AIDemoUsage:'' @ IP"

text \<open>
  \<open>checkRateLimit\<close> reads the store once. \<open>used >= IP_LIMIT\<close> is false for \<open>null\<close>;
  \<open>!used\<close> holds for \<open>null\<close> and for 0.
\<close>

definition checkRateLimit :: "env \<Rightarrow> request \<Rightarrow> redis_store \<Rightarrow> limit \<times> event list" where
  "checkRateLimit e req s =
     (let IP = getIP req;
          u = redis_get (now e) s (usage_key IP);
          es = [RedisGet (usage_key IP)]
      in if (case u of None \<Rightarrow> False | Some n \<Rightarrow> n \<ge> IP_LIMIT) then
           (\<lparr>allowed = False,
             reason = Some ''AI usage limit reached. Get full access when we launch.'',
             status = 429, new = False\<rparr>, es)
         else if (case u of None \<Rightarrow> True | Some n \<Rightarrow> n = 0) then
           (\<lparr>allowed = True, reason = None, status = 200, new = True\<rparr>, es)
         else
           (\<lparr>allowed = True, reason = None, status = 200, new = False\<rparr>, es))"

definition systemPrompt :: chat_message where
  "systemPrompt = \<lparr>role = ''system'', content =
     ''You are a friendly, engaging AI assistant named Nova, created for a school technology showcase. '' @ [CHR 0x0A] @
     ''Your goal is to give clear, concise, and interesting responses that are fun to watch on a projector. '' @ [CHR 0x0A] @
     ''Always greet users warmly, answer in a way that keeps the audience engaged, and adapt your tone to be '' @ [CHR 0x0A] @
     ''enthusiastic yet professional. Use occasional emojis to add visual flair (but no more than 2 per message). '' @ [CHR 0x0A] @
     ''Avoid controversial or inappropriate topics, and always keep your responses school-safe.'' @ [CHR 0x0A] @
     [CHR 0x0A] @
     ''When explaining concepts, keep sentences short, use bullet points when helpful, and occasionally '' @ [CHR 0x0A] @
     ''give fun facts related to the topic use emojis. If the user asks for something creative, make it colorful.'' @ [CHR 0x0A] @
     [CHR 0x0A] @
     ''End every answer with either:'' @ [CHR 0x0A] @
     ''- a short follow-up question to keep the conversation going, OR'' @ [CHR 0x0A] @
     ''- a quick suggestion for something else the user can ask.'' @ [CHR 0x0A] @
     [CHR 0x0A]\<rparr>"

text \<open>\<open>array.slice(-n)\<close>: the last \<open>n\<close> elements, all of them when there are fewer.\<close>

definition slice_last :: "nat \<Rightarrow> 'a list \<Rightarrow> 'a list" where
  "slice_last n xs = drop (length xs - n) xs"

text \<open>\<open>!reply\<close>: the content is missing or the empty string.\<close>

definition no_reply :: "string option \<Rightarrow> bool" where
  "no_reply reply = (case reply of None \<Rightarrow> True | Some r \<Rightarrow> r = [])"

text \<open>
  \<open>POST\<close>, from a store to the response, the store afterwards and the events of the
  request. The record is read at \<open>now\<close> and written, after the dispatch, at
  \<open>now + elapsed\<close>. A response built without a status has status 200. Errors raised inside
  the \<open>try\<close> block (the dispatcher's, or the \<open>TypeError\<close> of a \<open>null\<close> body) end in
  the \<open>catch\<close> branch.
\<close>

definition POST :: "env \<Rightarrow> request \<Rightarrow> redis_store \<Rightarrow> response \<times> redis_store \<times> event list" where
  "POST e req s =
     (let (lim, es0) = checkRateLimit e req s;
          es1 = ConsoleLogUrl (UPSTASH_REDIS_REST_URL e) # es0
      in if \<not> allowed lim then
           (\<lparr>http_status = status lim, body_role = ''error'', body_content = reason lim\<rparr>,
            s, es1)
         else
           let es2 = es1 @ [ConsoleLogPayload (payload_messages req)]
           in case payload_messages req of
                None \<Rightarrow>
                  (\<lparr>http_status = 400, body_role = ''error'',
                    body_content = Some ''No messages provided''\<rparr>, s, es2)
              | Some ms \<Rightarrow>
                 (let chatHistory = systemPrompt # slice_last 5 ms;
                      (result, es3) = fetchWithRotatedKey e chatHistory None;
                      failed = \<lparr>http_status = 500, body_role = ''error'',
                                body_content =
                                  Some ''Some internal error occurred. Please try again later.''\<rparr>
                  in case result of
                       Inl err \<Rightarrow> (failed, s, es2 @ es3 @ [ConsoleError err])
                     | Inr DataNull \<Rightarrow> (failed, s, es2 @ es3 @ [ConsoleError TypeError])
                     | Inr (Data reply) \<Rightarrow>
                         if no_reply reply then
                           (\<lparr>http_status = 200, body_role = ''error'',
                             body_content = Some ''No response received''\<rparr>, s, es2 @ es3)
                         else
                           let k = usage_key (getIP req);
                               ok = \<lparr>http_status = 200, body_role = ''assistant'',
                                     body_content = reply\<rparr>
                           in if new lim then
                                (ok, redis_set (now e + elapsed e) s k 1 (3600 * 24 * 2),
                                 es2 @ es3 @ [RedisSet k 1 (3600 * 24 * 2)])
                              else
                                (ok, redis_incr (now e + elapsed e) s k,
                                 es2 @ es3 @ [RedisIncr k])))"

section \<open>Observations on the events of a request\<close>

text \<open>The upstream calls of a trace, in order: credential and body of each.\<close>

fun calls :: "event list \<Rightarrow> (string \<times> post_body) list" where
  "calls [] = []"
| "calls (AxiosPost k b # es) = (k, b) # calls es"
| "calls (_ # es) = calls es"

definition attempted :: "event list \<Rightarrow> string list" where
  "attempted es = map fst (calls es)"

text \<open>The outcome of each call of a dispatch, the first one being call number \<open>n\<close>.\<close>

fun outcomes ::
  "(nat \<Rightarrow> string \<Rightarrow> post_body \<Rightarrow> upstream_result) \<Rightarrow> nat \<Rightarrow> (string \<times> post_body) list
     \<Rightarrow> upstream_result list" where
  "outcomes post n [] = []"
| "outcomes post n ((k, b) # cs) = post n k b # outcomes post (Suc n) cs"

fun is_resolved :: "upstream_result \<Rightarrow> bool" where
  "is_resolved (Resolved _) = True"
| "is_resolved (Rejected _) = False"

text \<open>
  The writes to the store, and the two arguments of the warnings logged: the line
  and the message of the error caught.
\<close>

fun is_write :: "event \<Rightarrow> bool" where
  "is_write (RedisSet _ _ _) = True"
| "is_write (RedisIncr _) = True"
| "is_write _ = False"

fun warnings :: "event list \<Rightarrow> string list" where
  "warnings [] = []"
| "warnings (ConsoleWarn line _ # es) = line # warnings es"
| "warnings (_ # es) = warnings es"

fun causes :: "event list \<Rightarrow> string list" where
  "causes [] = []"
| "causes (ConsoleWarn _ m # es) = m # causes es"
| "causes (_ # es) = causes es"

text \<open>
  A resolved reply without an assistant message: a \<open>null\<close> body, or data whose
  content is missing or empty.
\<close>

definition lacks_message :: "response_data \<Rightarrow> bool" where
  "lacks_message d = (case d of DataNull \<Rightarrow> True | Data reply \<Rightarrow> no_reply reply)"

text \<open>The number a client sees in the store at an instant, 0 when it has no live record.\<close>

definition usage :: "nat \<Rightarrow> redis_store \<Rightarrow> string \<Rightarrow> int" where
  "usage t s k = (case redis_get t s k of None \<Rightarrow> 0 | Some n \<Rightarrow> n)"

section \<open>Concrete runs\<close>

text \<open>
  A pool of two credentials, a client behind a proxy, and upstream providers that
  reject every call, reject the first call only, resolve every call with a reply,
  resolve every call with data that holds no assistant message, and resolve every
  call with a \<open>null\<close> body. With every draw equal to 1 the shuffle of two credentials
  leaves them in place. The record is read at second 1000 and written 2 seconds
  later.
\<close>

definition hello :: chat_message where
  "hello = \<lparr>role = ''user'', content = ''Hi''\<rparr>"

fun draw_one :: "nat \<Rightarrow> nat" where
  "draw_one k = 1"

fun post_fail :: "nat \<Rightarrow> string \<Rightarrow> post_body \<Rightarrow> upstream_result" where
  "post_fail n key b = Rejected ''Request failed with status code 401''"

fun post_second :: "nat \<Rightarrow> string \<Rightarrow> post_body \<Rightarrow> upstream_result" where
  "post_second n key b =
     (if n = 0 then Rejected ''timeout of 1000ms exceeded''
      else Resolved (Data (Some ''Hello'')))"

fun post_ok :: "nat \<Rightarrow> string \<Rightarrow> post_body \<Rightarrow> upstream_result" where
  "post_ok n key b = Resolved (Data (Some ''Hello''))"

fun post_blank :: "nat \<Rightarrow> string \<Rightarrow> post_body \<Rightarrow> upstream_result" where
  "post_blank n key b = Resolved (Data None)"

fun post_null :: "nat \<Rightarrow> string \<Rightarrow> post_body \<Rightarrow> upstream_result" where
  "post_null n key b = Resolved DataNull"

definition env_of :: "(nat \<Rightarrow> string \<Rightarrow> post_body \<Rightarrow> upstream_result) \<Rightarrow> env" where
  "env_of post =
     \<lparr>AI_API_KEYS = [Some ''K1'', Some ''K2'', None, Some [], None, None],
      AI_MODEL = Some ''some-model'', UPSTASH_REDIS_REST_URL = Some ''https://store'',
      random = draw_one, axios_post = post, now = 1000, elapsed = 2\<rparr>"

definition req_hi :: request where
  "req_hi = \<lparr>x_forwarded_for = Some ''203.0.113.7, 10.0.0.1'', payload_messages = Some [hello]\<rparr>"

definition req_empty :: request where
  "req_empty = \<lparr>x_forwarded_for = Some ''203.0.113.7, 10.0.0.1'', payload_messages = Some []\<rparr>"

definition req_none :: request where
  "req_none = \<lparr>x_forwarded_for = Some ''203.0.113.7, 10.0.0.1'', payload_messages = None\<rparr>"

definition req_anon :: request where
  "req_anon = \<lparr>x_forwarded_for = None, payload_messages = Some [hello]\<rparr>"

definition fresh_store :: redis_store where
  "fresh_store = Map.empty"

definition store_at :: "int \<Rightarrow> redis_store" where
  "store_at n = [''AIDemoUsage:203.0.113.7'' \<mapsto> \<lparr>used = n, expiry = Some 5000\<rparr>]"


definition body_of :: "chat_message list \<Rightarrow> post_body" where
  "body_of ms = \<lparr>model = Some ''some-model'', messages = systemPrompt # ms, maxTokens = 5000\<rparr>"

text \<open>Seven messages, and an anonymous request that carries them.\<close>

fun msg_of :: "char \<Rightarrow> chat_message" where
  "msg_of c = \<lparr>role = ''user'', content = [c]\<rparr>"

definition seven :: "chat_message list" where
  "seven = map msg_of ''abcdefg''"

definition req_seven :: request where
  "req_seven = \<lparr>x_forwarded_for = None, payload_messages = Some seven\<rparr>"

section \<open>The shuffle permutes\<close>

lemma mset_shuffle_loop: "i < length array \<Longrightarrow> mset (shuffle_loop rnd k i array) = mset array"
proof (induction i arbitrary: k array)
  case 0
  then show ?case by simp
next
  case (Suc i)
  have j: "rnd k mod (Suc i + 1) < length array"
    using Suc.prems
    by (metis Suc_eq_plus1 less_Suc_eq_le mod_less_divisor order_le_less_trans zero_less_Suc)
  have "mset (array[Suc i := array ! (rnd k mod (Suc i + 1)),
                    rnd k mod (Suc i + 1) := array ! Suc i]) = mset array"
    using mset_swap [OF j Suc.prems] by simp
  then show ?case using Suc by (simp add: Let_def)
qed

lemma mset_shuffle: "mset (shuffle rnd array) = mset array"
  by (cases array) (simp_all add: shuffle_def mset_shuffle_loop)

section \<open>The loop over the credentials\<close>

lemma calls_append: "calls (xs @ ys) = calls xs @ calls ys"
  by (induction xs rule: calls.induct) simp_all

lemma warnings_append: "warnings (xs @ ys) = warnings xs @ warnings ys"
  by (induction xs rule: warnings.induct) simp_all

lemma fetch_loop_prefix: "fetch_loop post b n ks = (r, es) \<Longrightarrow> prefix (attempted es) ks"
  by (induction ks arbitrary: n r es)
     (auto simp: attempted_def split: upstream_result.splits prod.splits)

lemma fetch_loop_bodies: "fetch_loop post b n ks = (r, es) \<Longrightarrow> snd ` set (calls es) \<subseteq> {b}"
  by (induction ks arbitrary: n r es) (fastforce split: upstream_result.splits prod.splits)+

lemma fetch_loop_no_write: "fetch_loop post b n ks = (r, es) \<Longrightarrow> filter is_write es = []"
  by (induction ks arbitrary: n r es) (auto split: upstream_result.splits prod.splits)

lemma fetch_loop_None:
  "fetch_loop post b n ks = (None, es) \<Longrightarrow>
     attempted es = ks
     \<and> filter is_resolved (outcomes post n (calls es)) = []
     \<and> warnings es = map (\<lambda>k. ''Key failed: '' @ k @ '', retrying...'') ks"
  by (induction ks arbitrary: n es)
     (auto simp: attempted_def split: upstream_result.splits prod.splits)

lemma fetch_loop_causes:
  "fetch_loop post b n ks = (None, es) \<Longrightarrow>
     map Rejected (causes es) = outcomes post n (calls es)"
  by (induction ks arbitrary: n es) (auto split: upstream_result.splits prod.splits)

lemma fetch_loop_Some:
  "fetch_loop post b n ks = (Some d, es) \<Longrightarrow>
     outcomes post n (calls es) \<noteq> [] \<and> last (outcomes post n (calls es)) = Resolved d"
  by (induction ks arbitrary: n es) (auto split: upstream_result.splits prod.splits)

lemma fetch_loop_butlast:
  "fetch_loop post b n ks = (r, es) \<Longrightarrow>
     filter is_resolved (butlast (outcomes post n (calls es))) = []"
  by (induction ks arbitrary: n r es) (auto split: upstream_result.splits prod.splits)

lemma fetch_loop_one_success:
  "fetch_loop post b n ks = (r, es) \<Longrightarrow>
     length (filter is_resolved (outcomes post n (calls es))) \<le> 1"
  by (induction ks arbitrary: n r es) (auto split: upstream_result.splits prod.splits)

section \<open>The handler, branch by branch\<close>

lemma checkRateLimit_events: "snd (checkRateLimit e req s) = [RedisGet (usage_key (getIP req))]"
  by (simp add: checkRateLimit_def Let_def)

lemma checkRateLimit_denied:
  "redis_get (now e) s (usage_key (getIP req)) = Some n \<Longrightarrow> IP_LIMIT \<le> n \<Longrightarrow>
     fst (checkRateLimit e req s) =
       \<lparr>allowed = False, reason = Some ''AI usage limit reached. Get full access when we launch.'',
        status = 429, new = False\<rparr>"
  by (simp add: checkRateLimit_def Let_def)

lemma checkRateLimit_allowed:
  "allowed (fst (checkRateLimit e req s)) =
     (case redis_get (now e) s (usage_key (getIP req)) of None \<Rightarrow> True | Some n \<Rightarrow> n < IP_LIMIT)"
  by (simp add: checkRateLimit_def Let_def split: option.splits)

lemma checkRateLimit_new:
  "new (fst (checkRateLimit e req s)) =
     (case redis_get (now e) s (usage_key (getIP req)) of None \<Rightarrow> True | Some n \<Rightarrow> n = 0)"
  by (simp add: checkRateLimit_def Let_def IP_LIMIT_def split: option.splits)

lemma checkRateLimit_not_allowed:
  "\<not> allowed (fst (checkRateLimit e req s)) \<Longrightarrow>
     fst (checkRateLimit e req s) =
       \<lparr>allowed = False, reason = Some ''AI usage limit reached. Get full access when we launch.'',
        status = 429, new = False\<rparr>"
  by (simp add: checkRateLimit_def Let_def split: option.splits if_splits)

lemma POST_denied:
  assumes "\<not> allowed (fst (checkRateLimit e req s))"
  shows "POST e req s =
     (\<lparr>http_status = 429, body_role = ''error'',
       body_content = Some ''AI usage limit reached. Get full access when we launch.''\<rparr>,
      s, [ConsoleLogUrl (UPSTASH_REDIS_REST_URL e), RedisGet (usage_key (getIP req))])"
proof -
  obtain lim es0 where c: "checkRateLimit e req s = (lim, es0)" by (cases "checkRateLimit e req s")
  have es0: "es0 = [RedisGet (usage_key (getIP req))]" using checkRateLimit_events [of e req s] c by simp
  have lim: "lim = \<lparr>allowed = False, reason = Some ''AI usage limit reached. Get full access when we launch.'',
        status = 429, new = False\<rparr>" using checkRateLimit_not_allowed [OF assms] c by simp
  show ?thesis unfolding POST_def c by (simp add: lim es0)
qed

lemma POST_no_messages:
  assumes "allowed (fst (checkRateLimit e req s))" and "payload_messages req = None"
  shows "POST e req s =
     (\<lparr>http_status = 400, body_role = ''error'', body_content = Some ''No messages provided''\<rparr>,
      s, [ConsoleLogUrl (UPSTASH_REDIS_REST_URL e), RedisGet (usage_key (getIP req)),
          ConsoleLogPayload None])"
proof -
  obtain lim es0 where c: "checkRateLimit e req s = (lim, es0)" by (cases "checkRateLimit e req s")
  have es0: "es0 = [RedisGet (usage_key (getIP req))]" using checkRateLimit_events [of e req s] c by simp
  have lim: "allowed lim" using assms c by simp
  show ?thesis unfolding POST_def c by (simp add: lim es0 assms(2))
qed

lemma POST_dispatched:
  assumes "allowed (fst (checkRateLimit e req s))" and "payload_messages req = Some ms"
    and "fetchWithRotatedKey e (systemPrompt # slice_last 5 ms) None = (result, es3)"
  shows "POST e req s =
     (let pre = [ConsoleLogUrl (UPSTASH_REDIS_REST_URL e), RedisGet (usage_key (getIP req)),
                 ConsoleLogPayload (Some ms)] @ es3;
          failed = \<lparr>http_status = 500, body_role = ''error'',
                    body_content = Some ''Some internal error occurred. Please try again later.''\<rparr>
      in case result of
           Inl err \<Rightarrow> (failed, s, pre @ [ConsoleError err])
         | Inr DataNull \<Rightarrow> (failed, s, pre @ [ConsoleError TypeError])
         | Inr (Data reply) \<Rightarrow>
             if no_reply reply then
               (\<lparr>http_status = 200, body_role = ''error'',
                 body_content = Some ''No response received''\<rparr>, s, pre)
             else if new (fst (checkRateLimit e req s)) then
               (\<lparr>http_status = 200, body_role = ''assistant'', body_content = reply\<rparr>,
                redis_set (now e + elapsed e) s (usage_key (getIP req)) 1 172800,
                pre @ [RedisSet (usage_key (getIP req)) 1 172800])
             else
               (\<lparr>http_status = 200, body_role = ''assistant'', body_content = reply\<rparr>,
                redis_incr (now e + elapsed e) s (usage_key (getIP req)),
                pre @ [RedisIncr (usage_key (getIP req))]))"
proof -
  obtain lim es0 where c: "checkRateLimit e req s = (lim, es0)" by (cases "checkRateLimit e req s")
  have es0: "es0 = [RedisGet (usage_key (getIP req))]" using checkRateLimit_events [of e req s] c by simp
  have lim: "allowed lim" using assms c by simp
  show ?thesis unfolding POST_def c
    by (simp add: lim es0 assms(2,3) Let_def split: sum.splits response_data.splits)
qed

section \<open>Dispatcher result, store operations, splitting and trimming\<close>

lemma fetchWithRotatedKey_loop:
  assumes "fetchWithRotatedKey e msgs mt = (result, es)"
  obtains b r where "messages b = msgs"
    and "fetch_loop (axios_post e) b 0 (shuffle (random e) (keys e)) = (r, es)"
    and "result = (case r of Some d \<Rightarrow> Inr d
                           | None \<Rightarrow> Inl (Error ''All keys failed. Please try again later.''))"
proof -
  let ?b = "\<lparr>model = AI_MODEL e, messages = msgs,
             maxTokens = (case mt of None \<Rightarrow> 5000 | Some m \<Rightarrow> if m = 0 then 5000 else m)\<rparr>"
  obtain r es' where l: "fetch_loop (axios_post e) ?b 0 (shuffle (random e) (keys e)) = (r, es')"
    by (cases "fetch_loop (axios_post e) ?b 0 (shuffle (random e) (keys e))")
  have "fetchWithRotatedKey e msgs mt =
          ((case r of Some d \<Rightarrow> Inr d
                    | None \<Rightarrow> Inl (Error ''All keys failed. Please try again later.'')), es')"
    by (simp add: fetchWithRotatedKey_def Let_def l split: option.splits)
  with assms have "es' = es"
    and "result = (case r of Some d \<Rightarrow> Inr d
                           | None \<Rightarrow> Inl (Error ''All keys failed. Please try again later.''))"
    by simp_all
  with l that [of ?b r] show thesis by simp
qed

lemma usage_redis_set: "usage t (redis_set t s k 1 172800) k = 1"
  by (simp add: usage_def redis_get_def redis_set_def live_def)

lemma usage_redis_set_earlier: "usage t (redis_set (t + d) s k 1 172800) k = 1"
  by (simp add: usage_def redis_get_def redis_set_def live_def)


lemma usage_redis_incr_bound:
  "redis_get t s k = Some n \<Longrightarrow> n < m \<Longrightarrow> 0 < m \<Longrightarrow> usage t' (redis_incr t'' s k) k \<le> m"
  by (auto simp: usage_def redis_get_def redis_incr_def live_def split: option.splits if_splits)

lemma usage_later:
  "usage t s k < m \<Longrightarrow> 0 < m \<Longrightarrow> usage (t + d) s k < m"
  by (auto simp: usage_def redis_get_def live_def split: option.splits if_splits)



lemma fst_split: "fst (split sep s) = takeWhile (\<lambda>c. c \<noteq> sep) s"
  by (induction s) (auto split: prod.splits)

lemma trim_Nil: "trim [] = []"
  by (simp add: trim_def)

lemma trim_ends:
  "trim s = [] \<or> (\<not> isWhiteSpace (hd (trim s)) \<and> \<not> isWhiteSpace (last (trim s)))"
proof (cases "trim s = []")
  case True
  then show ?thesis by simp
next
  case False
  let ?d = "dropWhile isWhiteSpace s"
  let ?r = "dropWhile isWhiteSpace (rev ?d)"
  have r: "?r \<noteq> []" using False by (simp add: trim_def)
  have l: "\<not> isWhiteSpace (hd ?r)" using r by (rule hd_dropWhile)
  have d: "?d \<noteq> []" using r by (cases ?d) simp_all
  have h: "\<not> isWhiteSpace (hd ?d)" using d by (rule hd_dropWhile)
  have "hd ?d \<in> set (rev ?d)" using d by simp
  then have "last ?r = last (rev ?d)" using h by (rule dropWhile_last)
  then have "\<not> isWhiteSpace (last ?r)" using h by (simp add: last_rev)
  then have "\<not> isWhiteSpace (hd (rev ?r))" by (simp add: hd_rev)
  moreover have "\<not> isWhiteSpace (last (rev ?r))" using l by (simp add: last_rev)
  ultimately show ?thesis by (simp add: trim_def)
qed

section \<open>The concrete runs, evaluated\<close>

lemma keys_env_of: "keys (env_of post) = [''K1'', ''K2'']"
  by (simp add: keys_def env_of_def)

lemma shuffle_env_of: "shuffle (random (env_of post)) (keys (env_of post)) = [''K1'', ''K2'']"
  unfolding keys_env_of by (simp add: shuffle_def env_of_def Let_def)

lemma getIP_req: "getIP req_hi = ''203.0.113.7''" "getIP req_empty = ''203.0.113.7''" "getIP req_none = ''203.0.113.7''"
   "getIP req_anon = []"
  by (simp_all add: getIP_def req_hi_def req_empty_def req_none_def req_anon_def trim_def isWhiteSpace_def)

lemma fetch_fail:
  "fetchWithRotatedKey (env_of post_fail) (systemPrompt # ms) None =
     (Inl (Error ''All keys failed. Please try again later.''),
      [AxiosPost ''K1'' (body_of ms),
       ConsoleWarn ''Key failed: K1, retrying...'' ''Request failed with status code 401'',
       AxiosPost ''K2'' (body_of ms),
       ConsoleWarn ''Key failed: K2, retrying...'' ''Request failed with status code 401''])"
  by (simp add: fetchWithRotatedKey_def shuffle_env_of Let_def body_of_def) (simp add: env_of_def)

lemma fetch_second:
  "fetchWithRotatedKey (env_of post_second) (systemPrompt # ms) None =
     (Inr (Data (Some ''Hello'')),
      [AxiosPost ''K1'' (body_of ms),
       ConsoleWarn ''Key failed: K1, retrying...'' ''timeout of 1000ms exceeded'',
       AxiosPost ''K2'' (body_of ms)])"
  by (simp add: fetchWithRotatedKey_def shuffle_env_of Let_def body_of_def) (simp add: env_of_def)

lemma fetch_ok:
  "fetchWithRotatedKey (env_of post_ok) (systemPrompt # ms) None =
     (Inr (Data (Some ''Hello'')), [AxiosPost ''K1'' (body_of ms)])"
  by (simp add: fetchWithRotatedKey_def shuffle_env_of Let_def body_of_def) (simp add: env_of_def)

lemma fetch_blank:
  "fetchWithRotatedKey (env_of post_blank) (systemPrompt # ms) None =
     (Inr (Data None), [AxiosPost ''K1'' (body_of ms)])"
  by (simp add: fetchWithRotatedKey_def shuffle_env_of Let_def body_of_def) (simp add: env_of_def)

lemma fetch_null:
  "fetchWithRotatedKey (env_of post_null) (systemPrompt # ms) None =
     (Inr DataNull, [AxiosPost ''K1'' (body_of ms)])"
  by (simp add: fetchWithRotatedKey_def shuffle_env_of Let_def body_of_def) (simp add: env_of_def)

lemma get_fresh: "redis_get t fresh_store k = None"
  by (simp add: redis_get_def fresh_store_def)

lemma get_store_at: "redis_get (now (env_of post)) (store_at n) ''AIDemoUsage:203.0.113.7'' = Some n"
  by (simp add: redis_get_def store_at_def live_def env_of_def)

lemma check_fresh:
  "checkRateLimit (env_of post) req fresh_store =
     (\<lparr>allowed = True, reason = None, status = 200, new = True\<rparr>, [RedisGet (usage_key (getIP req))])"
  by (simp add: checkRateLimit_def get_fresh Let_def)

lemma check_store_at:
  "getIP req = ''203.0.113.7'' \<Longrightarrow> 0 < n \<Longrightarrow> n < 100 \<Longrightarrow>
   checkRateLimit (env_of post) req (store_at n) =
     (\<lparr>allowed = True, reason = None, status = 200, new = False\<rparr>,
      [RedisGet ''AIDemoUsage:203.0.113.7''])"
  by (simp add: checkRateLimit_def usage_key_def get_store_at Let_def IP_LIMIT_def)

lemma check_store_full:
  "getIP req = ''203.0.113.7'' \<Longrightarrow> 100 \<le> n \<Longrightarrow>
   checkRateLimit (env_of post) req (store_at n) =
     (\<lparr>allowed = False, reason = Some ''AI usage limit reached. Get full access when we launch.'',
       status = 429, new = False\<rparr>,
      [RedisGet ''AIDemoUsage:203.0.113.7''])"
  by (simp add: checkRateLimit_def usage_key_def get_store_at Let_def IP_LIMIT_def)

section \<open>Quota accounting\<close>

lemma POST_store_cases:
  "fst (snd (POST e req s)) = s
   \<or> (allowed (fst (checkRateLimit e req s)) \<and> new (fst (checkRateLimit e req s))
        \<and> fst (snd (POST e req s))
            = redis_set (now e + elapsed e) s (usage_key (getIP req)) 1 172800)
   \<or> (allowed (fst (checkRateLimit e req s)) \<and> \<not> new (fst (checkRateLimit e req s))
        \<and> fst (snd (POST e req s)) = redis_incr (now e + elapsed e) s (usage_key (getIP req)))"
proof (cases "allowed (fst (checkRateLimit e req s))")
  case False
  then show ?thesis by (simp add: POST_denied)
next
  case True
  show ?thesis
  proof (cases "payload_messages req")
    case None
    with True show ?thesis by (simp add: POST_no_messages)
  next
    case (Some ms)
    obtain result es3 where
      f: "fetchWithRotatedKey e (systemPrompt # slice_last 5 ms) None = (result, es3)"
      by (cases "fetchWithRotatedKey e (systemPrompt # slice_last 5 ms) None")
    show ?thesis
      using True
      by (simp add: POST_dispatched [OF True Some f] Let_def
               split: sum.splits response_data.splits)
  qed
qed

text \<open>
  C3. When dispatch fails, that is, every credential of the pool was tried and every
  call was rejected, the handler answers 500 with the error payload, performs no
  write to the store, and the client's usage count is what it was.
\<close>

theorem failed_dispatch_is_free:
  assumes "allowed (fst (checkRateLimit e req s))"
    and "payload_messages req = Some ms"
    and "fetchWithRotatedKey e (systemPrompt # slice_last 5 ms) None = (Inl err, es)"
  shows "fst (POST e req s) =
           \<lparr>http_status = 500, body_role = ''error'',
            body_content = Some ''Some internal error occurred. Please try again later.''\<rparr>
       \<and> fst (snd (POST e req s)) = s
       \<and> usage (now e) (fst (snd (POST e req s))) (usage_key (getIP req))
           = usage (now e) s (usage_key (getIP req))
       \<and> filter is_write (snd (snd (POST e req s))) = []
       \<and> attempted es = shuffle (random e) (keys e)
       \<and> filter is_resolved (outcomes (axios_post e) 0 (calls es)) = []"
proof -
  obtain b r where l: "fetch_loop (axios_post e) b 0 (shuffle (random e) (keys e)) = (r, es)"
    and r: "Inl err = (case r of Some d \<Rightarrow> Inr d
                              | None \<Rightarrow> Inl (Error ''All keys failed. Please try again later.''))"
    using fetchWithRotatedKey_loop [OF assms(3)] by blast
  from r have "r = None" by (cases r) simp_all
  with l have n: "fetch_loop (axios_post e) b 0 (shuffle (random e) (keys e)) = (None, es)"
    by simp
  have w: "filter is_write es = []" using l by (rule fetch_loop_no_write)
  have p: "POST e req s =
      (\<lparr>http_status = 500, body_role = ''error'',
        body_content = Some ''Some internal error occurred. Please try again later.''\<rparr>, s,
       [ConsoleLogUrl (UPSTASH_REDIS_REST_URL e), RedisGet (usage_key (getIP req)),
        ConsoleLogPayload (Some ms)] @ es @ [ConsoleError err])"
    by (simp add: POST_dispatched [OF assms] Let_def)
  show ?thesis using fetch_loop_None [OF n] w by (simp add: p)
qed

theorem failed_dispatch_is_free_witness:
  "allowed (fst (checkRateLimit (env_of post_fail) req_hi (store_at 3)))
   \<and> payload_messages req_hi = Some [hello]
   \<and> fetchWithRotatedKey (env_of post_fail) (systemPrompt # slice_last 5 [hello]) None =
       (Inl (Error ''All keys failed. Please try again later.''),
        [AxiosPost ''K1'' (body_of [hello]),
         ConsoleWarn ''Key failed: K1, retrying...'' ''Request failed with status code 401'',
         AxiosPost ''K2'' (body_of [hello]),
         ConsoleWarn ''Key failed: K2, retrying...'' ''Request failed with status code 401''])
   \<and> http_status (fst (POST (env_of post_fail) req_hi (store_at 3))) = 500
   \<and> fst (snd (POST (env_of post_fail) req_hi (store_at 3))) = store_at 3
   \<and> usage (now (env_of post_fail)) (fst (snd (POST (env_of post_fail) req_hi (store_at 3))))
        (usage_key (getIP req_hi)) = 3"
proof -
  have h1: "allowed (fst (checkRateLimit (env_of post_fail) req_hi (store_at 3)))"
    by (simp add: check_store_at getIP_req)
  have h2: "payload_messages req_hi = Some [hello]" by (simp add: req_hi_def)
  have h3: "fetchWithRotatedKey (env_of post_fail) (systemPrompt # slice_last 5 [hello]) None =
       (Inl (Error ''All keys failed. Please try again later.''),
        [AxiosPost ''K1'' (body_of [hello]),
         ConsoleWarn ''Key failed: K1, retrying...'' ''Request failed with status code 401'',
         AxiosPost ''K2'' (body_of [hello]),
         ConsoleWarn ''Key failed: K2, retrying...'' ''Request failed with status code 401''])"
    by (simp add: slice_last_def fetch_fail)
  have u: "usage (now (env_of post_fail)) (store_at 3) (usage_key (getIP req_hi)) = 3"
    by (simp add: usage_def getIP_req usage_key_def get_store_at)
  show ?thesis using failed_dispatch_is_free [OF h1 h2 h3] h1 h2 h3 u by simp
qed

lemma POST_replied:
  assumes "allowed (fst (checkRateLimit e req s))"
    and "payload_messages req = Some ms"
    and "fetchWithRotatedKey e (systemPrompt # slice_last 5 ms) None = (Inr (Data (Some reply)), es)"
    and "reply \<noteq> []"
  shows "POST e req s =
     (\<lparr>http_status = 200, body_role = ''assistant'', body_content = Some reply\<rparr>,
      (if new (fst (checkRateLimit e req s))
       then redis_set (now e + elapsed e) s (usage_key (getIP req)) 1 172800
       else redis_incr (now e + elapsed e) s (usage_key (getIP req))),
      [ConsoleLogUrl (UPSTASH_REDIS_REST_URL e), RedisGet (usage_key (getIP req)),
       ConsoleLogPayload (Some ms)] @ es @
      [if new (fst (checkRateLimit e req s)) then RedisSet (usage_key (getIP req)) 1 172800
       else RedisIncr (usage_key (getIP req))])"
  using assms(4) by (simp add: POST_dispatched [OF assms(1-3)] Let_def no_reply_def)


lemma old_usage:
  "\<not> new (fst (checkRateLimit e req s)) \<Longrightarrow>
     redis_get (now e) s (usage_key (getIP req)) = Some (usage (now e) s (usage_key (getIP req)))"
  by (simp add: checkRateLimit_new usage_def split: option.splits)






text \<open>
  C5. A client whose count in the current window has reached \<open>IP_LIMIT\<close> is refused:
  the check answers \<open>allowed = false\<close>, the handler answers 429 with the quota
  message, the store is left as it was and no upstream call is made. Whenever the
  check grants \<open>allowed = true\<close>, the count after the request is at most \<open>IP_LIMIT\<close>,
  seen at the time of the check and at the time of the commit.
\<close>

theorem quota_exhausted_is_refused:
  "(redis_get (now e) s (usage_key (getIP req)) = Some n \<and> IP_LIMIT \<le> n \<longrightarrow>
      \<not> allowed (fst (checkRateLimit e req s))
      \<and> fst (POST e req s) =
          \<lparr>http_status = 429, body_role = ''error'',
           body_content = Some ''AI usage limit reached. Get full access when we launch.''\<rparr>
      \<and> fst (snd (POST e req s)) = s
      \<and> calls (snd (snd (POST e req s))) = []
      \<and> filter is_write (snd (snd (POST e req s))) = [])
   \<and> (allowed (fst (checkRateLimit e req s)) \<longrightarrow>
        usage (now e) s (usage_key (getIP req)) < IP_LIMIT
        \<and> usage (now e) (fst (snd (POST e req s))) (usage_key (getIP req)) \<le> IP_LIMIT
        \<and> usage (now e + elapsed e) (fst (snd (POST e req s))) (usage_key (getIP req))
            \<le> IP_LIMIT)"
proof (intro conjI impI)
  assume "redis_get (now e) s (usage_key (getIP req)) = Some n \<and> IP_LIMIT \<le> n"
  then have d: "\<not> allowed (fst (checkRateLimit e req s))"
    by (simp add: checkRateLimit_denied)
  then show "\<not> allowed (fst (checkRateLimit e req s))" .
  show "fst (POST e req s) =
          \<lparr>http_status = 429, body_role = ''error'',
           body_content = Some ''AI usage limit reached. Get full access when we launch.''\<rparr>"
    and "fst (snd (POST e req s)) = s"
    and "calls (snd (snd (POST e req s))) = []"
    and "filter is_write (snd (snd (POST e req s))) = []"
    by (simp_all add: POST_denied [OF d])
next
  let ?k = "usage_key (getIP req)"
  assume a: "allowed (fst (checkRateLimit e req s))"
  then show b: "usage (now e) s ?k < IP_LIMIT"
    by (simp add: checkRateLimit_allowed usage_def IP_LIMIT_def split: option.splits)
  have pos: "0 < IP_LIMIT" by (simp add: IP_LIMIT_def)
  consider "fst (snd (POST e req s)) = s"
    | "fst (snd (POST e req s)) = redis_set (now e + elapsed e) s ?k 1 172800"
    | "\<not> new (fst (checkRateLimit e req s))"
      "fst (snd (POST e req s)) = redis_incr (now e + elapsed e) s ?k"
    using POST_store_cases [of e req s] by blast
  then have "usage (now e) (fst (snd (POST e req s))) ?k \<le> IP_LIMIT
           \<and> usage (now e + elapsed e) (fst (snd (POST e req s))) ?k \<le> IP_LIMIT"
  proof cases
    case 1
    then show ?thesis using b usage_later [OF b pos, of "elapsed e"] by simp
  next
    case 2
    then show ?thesis by (simp add: usage_redis_set usage_redis_set_earlier IP_LIMIT_def)
  next
    case 3
    note o = old_usage [OF 3(1)]
    show ?thesis
      unfolding 3(2) using usage_redis_incr_bound [OF o b pos] by blast
  qed
  then show "usage (now e) (fst (snd (POST e req s))) ?k \<le> IP_LIMIT"
    and "usage (now e + elapsed e) (fst (snd (POST e req s))) ?k \<le> IP_LIMIT"
    by simp_all
qed

theorem quota_exhausted_is_refused_witness:
  "redis_get (now (env_of post_ok)) (store_at 100) (usage_key (getIP req_hi)) = Some 100
   \<and> IP_LIMIT \<le> 100
   \<and> \<not> allowed (fst (checkRateLimit (env_of post_ok) req_hi (store_at 100)))
   \<and> http_status (fst (POST (env_of post_ok) req_hi (store_at 100))) = 429
   \<and> fst (snd (POST (env_of post_ok) req_hi (store_at 100))) = store_at 100
   \<and> calls (snd (snd (POST (env_of post_ok) req_hi (store_at 100)))) = []
   \<and> allowed (fst (checkRateLimit (env_of post_ok) req_hi (store_at 99)))
   \<and> usage (now (env_of post_ok)) (fst (snd (POST (env_of post_ok) req_hi (store_at 99))))
        (usage_key (getIP req_hi)) \<le> IP_LIMIT"
proof -
  have h1: "redis_get (now (env_of post_ok)) (store_at 100) (usage_key (getIP req_hi)) = Some 100"
    by (simp add: getIP_req usage_key_def get_store_at)
  have h2: "IP_LIMIT \<le> 100" by (simp add: IP_LIMIT_def)
  have h3: "allowed (fst (checkRateLimit (env_of post_ok) req_hi (store_at 99)))"
    by (simp add: check_store_at getIP_req)
  show ?thesis
    using quota_exhausted_is_refused [of "env_of post_ok" "store_at 100" req_hi 100]
      quota_exhausted_is_refused [of "env_of post_ok" "store_at 99" req_hi 100] h1 h2 h3
    by simp
qed

section \<open>Dispatch order\<close>

lemma prefix_mset_subset: "prefix xs ys \<Longrightarrow> mset xs \<subseteq># mset ys"
  by (auto simp: prefix_def)

lemma prefix_distinct: "prefix xs ys \<Longrightarrow> distinct ys \<Longrightarrow> distinct xs"
  by (auto simp: prefix_def)

lemma distinct_shuffle: "distinct (shuffle rnd xs) = distinct xs"
  by (metis mset_shuffle mset_eq_imp_distinct_iff)

text \<open>
  C6. In every dispatch the trial order is a permutation of the pool, the
  credentials attempted are an initial segment of that order (so each entry of the
  pool is attempted at most once, and a pool without repeated credentials gives no
  repeated attempt), every call before the last one made was rejected, and at most
  one call resolves; the dispatch returns data exactly when its last call resolved.
\<close>

theorem dispatch_order_is_permutation:
  "mset (shuffle (random e) (keys e)) = mset (keys e)
   \<and> length (shuffle (random e) (keys e)) = length (keys e)
   \<and> prefix (attempted (snd (fetchWithRotatedKey e msgs mt))) (shuffle (random e) (keys e))
   \<and> mset (attempted (snd (fetchWithRotatedKey e msgs mt))) \<subseteq># mset (keys e)
   \<and> (distinct (keys e) \<longrightarrow> distinct (attempted (snd (fetchWithRotatedKey e msgs mt))))
   \<and> filter is_resolved
        (butlast (outcomes (axios_post e) 0 (calls (snd (fetchWithRotatedKey e msgs mt))))) = []
   \<and> length (filter is_resolved
        (outcomes (axios_post e) 0 (calls (snd (fetchWithRotatedKey e msgs mt))))) \<le> 1
   \<and> (case fst (fetchWithRotatedKey e msgs mt) of
        Inr d \<Rightarrow>
          outcomes (axios_post e) 0 (calls (snd (fetchWithRotatedKey e msgs mt))) \<noteq> []
          \<and> last (outcomes (axios_post e) 0 (calls (snd (fetchWithRotatedKey e msgs mt))))
              = Resolved d
      | Inl err \<Rightarrow>
          attempted (snd (fetchWithRotatedKey e msgs mt)) = shuffle (random e) (keys e)
          \<and> filter is_resolved
               (outcomes (axios_post e) 0 (calls (snd (fetchWithRotatedKey e msgs mt)))) = [])"
proof -
  obtain result es where f: "fetchWithRotatedKey e msgs mt = (result, es)"
    by (cases "fetchWithRotatedKey e msgs mt")
  obtain b r where l: "fetch_loop (axios_post e) b 0 (shuffle (random e) (keys e)) = (r, es)"
    and r: "result = (case r of Some d \<Rightarrow> Inr d
                              | None \<Rightarrow> Inl (Error ''All keys failed. Please try again later.''))"
    using fetchWithRotatedKey_loop [OF f] by blast
  have m: "mset (shuffle (random e) (keys e)) = mset (keys e)" by (rule mset_shuffle)
  then have len: "length (shuffle (random e) (keys e)) = length (keys e)"
    by (rule mset_eq_length)
  have p: "prefix (attempted es) (shuffle (random e) (keys e))"
    using l by (rule fetch_loop_prefix)
  have sub: "mset (attempted es) \<subseteq># mset (keys e)"
    using prefix_mset_subset [OF p] m by simp
  have dist: "distinct (keys e) \<longrightarrow> distinct (attempted es)"
    using prefix_distinct [OF p] by (simp add: distinct_shuffle)
  have bl: "filter is_resolved (butlast (outcomes (axios_post e) 0 (calls es))) = []"
    using l by (rule fetch_loop_butlast)
  have one: "length (filter is_resolved (outcomes (axios_post e) 0 (calls es))) \<le> 1"
    using l by (rule fetch_loop_one_success)
  have res: "(case result of
        Inr d \<Rightarrow> outcomes (axios_post e) 0 (calls es) \<noteq> []
          \<and> last (outcomes (axios_post e) 0 (calls es)) = Resolved d
      | Inl err \<Rightarrow> attempted es = shuffle (random e) (keys e)
          \<and> filter is_resolved (outcomes (axios_post e) 0 (calls es)) = [])"
  proof (cases r)
    case None
    with l r fetch_loop_None [of "axios_post e" b 0 _ es] show ?thesis by simp
  next
    case (Some d)
    with l r fetch_loop_Some [of "axios_post e" b 0 _ d es] show ?thesis by simp
  qed
  show ?thesis unfolding f using m len p sub dist bl one res by (simp split: sum.splits)
qed

theorem dispatch_order_is_permutation_witness:
  "distinct (keys (env_of post_second))
   \<and> shuffle (random (env_of post_second)) (keys (env_of post_second)) = [''K1'', ''K2'']
   \<and> attempted (snd (fetchWithRotatedKey (env_of post_second) [systemPrompt] None))
       = [''K1'', ''K2'']
   \<and> distinct (attempted (snd (fetchWithRotatedKey (env_of post_second) [systemPrompt] None)))
   \<and> outcomes (axios_post (env_of post_second)) 0
        (calls (snd (fetchWithRotatedKey (env_of post_second) [systemPrompt] None)))
       = [Rejected ''timeout of 1000ms exceeded'', Resolved (Data (Some ''Hello''))]"
proof -
  have h: "distinct (keys (env_of post_second))" by (simp add: keys_env_of)
  have a: "attempted (snd (fetchWithRotatedKey (env_of post_second) [systemPrompt] None))
       = [''K1'', ''K2'']"
    by (simp add: fetch_second attempted_def)
  have o: "outcomes (axios_post (env_of post_second)) 0
        (calls (snd (fetchWithRotatedKey (env_of post_second) [systemPrompt] None)))
       = [Rejected ''timeout of 1000ms exceeded'', Resolved (Data (Some ''Hello''))]"
    by (simp add: fetch_second) (simp add: env_of_def)
  show ?thesis
    using dispatch_order_is_permutation [of "env_of post_second" "[systemPrompt]" None] h a o
    by (simp add: shuffle_env_of)
qed

section \<open>The conversation sent upstream\<close>

lemma POST_calls:
  assumes "allowed (fst (checkRateLimit e req s))" and "payload_messages req = Some ms"
    and "fetchWithRotatedKey e (systemPrompt # slice_last 5 ms) None = (result, es3)"
  shows "calls (snd (snd (POST e req s))) = calls es3"
  by (simp add: POST_dispatched [OF assms] Let_def calls_append
           split: sum.splits response_data.splits)

lemma fetch_loop_calls_nonempty:
  "ks \<noteq> [] \<Longrightarrow> fetch_loop post b n ks = (r, es) \<Longrightarrow> calls es \<noteq> []"
  by (cases ks) (auto split: upstream_result.splits prod.splits)

lemma shuffle_nonempty: "xs \<noteq> [] \<Longrightarrow> shuffle rnd xs \<noteq> []"
  by (metis mset_shuffle mset_zero_iff)

text \<open>
  C9. For a request that carries messages, every conversation sent upstream is the
  fixed system message followed by the last 5 messages of the request: the result of
  \<open>slice(-5)\<close> is a suffix of the request's messages (the newest ones, in their
  order) of length min 5 n. A request that passed the quota check, with a non-empty
  pool, does send one.
\<close>

theorem upstream_conversation:
  assumes "payload_messages req = Some ms"
  shows "messages ` snd ` set (calls (snd (snd (POST e req s)))) \<subseteq> {systemPrompt # slice_last 5 ms}
       \<and> suffix (slice_last 5 ms) ms
       \<and> length (slice_last 5 ms) = min 5 (length ms)
       \<and> (allowed (fst (checkRateLimit e req s)) \<and> keys e \<noteq> [] \<longrightarrow>
            calls (snd (snd (POST e req s))) \<noteq> [])"
proof -
  have suf: "suffix (slice_last 5 ms) ms"
    by (simp add: slice_last_def suffix_drop)
  have len: "length (slice_last 5 ms) = min 5 (length ms)"
    by (simp add: slice_last_def)
  show ?thesis
  proof (cases "allowed (fst (checkRateLimit e req s))")
    case False
    then show ?thesis using suf len by (simp add: POST_denied)
  next
    case True
    obtain result es where
      f: "fetchWithRotatedKey e (systemPrompt # slice_last 5 ms) None = (result, es)"
      by (cases "fetchWithRotatedKey e (systemPrompt # slice_last 5 ms) None")
    obtain b r where b: "messages b = systemPrompt # slice_last 5 ms"
      and l: "fetch_loop (axios_post e) b 0 (shuffle (random e) (keys e)) = (r, es)"
      using fetchWithRotatedKey_loop [OF f] by blast
    have c: "calls (snd (snd (POST e req s))) = calls es"
      using True assms f by (rule POST_calls)
    have "snd ` set (calls es) \<subseteq> {b}" using l by (rule fetch_loop_bodies)
    then have "messages ` snd ` set (calls es) \<subseteq> {systemPrompt # slice_last 5 ms}"
      using b by auto
    moreover have "keys e \<noteq> [] \<longrightarrow> calls es \<noteq> []"
      using fetch_loop_calls_nonempty [OF _ l] shuffle_nonempty by blast
    ultimately show ?thesis using suf len c by simp
  qed
qed

theorem upstream_conversation_witness:
  "payload_messages req_seven = Some seven
   \<and> allowed (fst (checkRateLimit (env_of post_ok)
                   req_seven fresh_store))
   \<and> keys (env_of post_ok) \<noteq> []
   \<and> slice_last 5 seven = map msg_of ''cdefg''
   \<and> calls (snd (snd (POST (env_of post_ok)
                req_seven fresh_store)))
       = [(''K1'', body_of (slice_last 5 seven))]"
proof -
  have h1: "payload_messages req_seven = Some seven" by (simp add: req_seven_def)
  have h2: "allowed (fst (checkRateLimit (env_of post_ok) req_seven fresh_store))"
    by (simp add: check_fresh)
  have h3: "keys (env_of post_ok) \<noteq> []" by (simp add: keys_env_of)
  have s: "slice_last 5 seven = map msg_of ''cdefg''"
    by (simp add: slice_last_def seven_def)
  have c: "calls (snd (snd (POST (env_of post_ok) req_seven fresh_store)))
       = [(''K1'', body_of (slice_last 5 seven))]"
    using POST_calls [OF h2 h1 fetch_ok] by simp
  show ?thesis
    using upstream_conversation [OF h1, of "env_of post_ok" fresh_store] h1 h2 h3 s c by simp
qed

section \<open>Client identifier\<close>

lemma POST_other_keys: "k \<noteq> usage_key (getIP req) \<Longrightarrow> fst (snd (POST e req s)) k = s k"
  using POST_store_cases [of e req s]
  by (auto simp: redis_set_def redis_incr_def split: option.splits)

lemma getIP_no_header: "x_forwarded_for req = None \<Longrightarrow> getIP req = []"
  by (simp add: getIP_def trim_def)

lemma check_same_client:
  "getIP req = getIP req' \<Longrightarrow> checkRateLimit e req s = checkRateLimit e req' s"
  by (simp add: checkRateLimit_def)

text \<open>
  C10. The client identifier is the part of the \<open>x-forwarded-for\<close> header before its
  first comma, trimmed of white space at both ends. A request without the header has
  the empty identifier: its store key is \<open>AIDemoUsage:\<close>, its request touches no
  other record, and any two such requests get the same decision from the same store,
  so they draw on one record and one budget.
\<close>

theorem client_identifier:
  "getIP req = trim (takeWhile (\<lambda>c. c \<noteq> CHR '','')
                      (case x_forwarded_for req of None \<Rightarrow> [] | Some v \<Rightarrow> v))
   \<and> (getIP req = [] \<or> (\<not> isWhiteSpace (hd (getIP req)) \<and> \<not> isWhiteSpace (last (getIP req))))
   \<and> (x_forwarded_for req = None \<longrightarrow>
        getIP req = []
        \<and> usage_key (getIP req) = ''AIDemoUsage:''
        \<and> snd (checkRateLimit e req s) = [RedisGet ''AIDemoUsage:'']
        \<and> (\<forall>k. k \<noteq> ''AIDemoUsage:'' \<longrightarrow> fst (snd (POST e req s)) k = s k)
        \<and> (x_forwarded_for req' = None \<longrightarrow>
             usage_key (getIP req') = usage_key (getIP req)
             \<and> checkRateLimit e' req' s' = checkRateLimit e' req s'))"
proof -
  have a: "getIP req = trim (takeWhile (\<lambda>c. c \<noteq> CHR '','')
                      (case x_forwarded_for req of None \<Rightarrow> [] | Some v \<Rightarrow> v))"
    by (simp add: getIP_def fst_split)
  have b: "getIP req = [] \<or> (\<not> isWhiteSpace (hd (getIP req)) \<and> \<not> isWhiteSpace (last (getIP req)))"
    unfolding getIP_def by (rule trim_ends)
  have c: "getIP req = [] \<and> usage_key (getIP req) = ''AIDemoUsage:''
        \<and> snd (checkRateLimit e req s) = [RedisGet ''AIDemoUsage:'']
        \<and> (\<forall>k. k \<noteq> ''AIDemoUsage:'' \<longrightarrow> fst (snd (POST e req s)) k = s k)
        \<and> (x_forwarded_for req' = None \<longrightarrow>
             usage_key (getIP req') = usage_key (getIP req)
             \<and> checkRateLimit e' req' s' = checkRateLimit e' req s')"
    if n: "x_forwarded_for req = None"
  proof -
    have g: "getIP req = []" using n by (rule getIP_no_header)
    have k: "usage_key (getIP req) = ''AIDemoUsage:''" by (simp add: g usage_key_def)
    have ev: "snd (checkRateLimit e req s) = [RedisGet ''AIDemoUsage:'']"
      using checkRateLimit_events [of e req s] by (simp add: k)
    have o: "\<forall>k. k \<noteq> ''AIDemoUsage:'' \<longrightarrow> fst (snd (POST e req s)) k = s k"
      using POST_other_keys [of _ req e s] by (simp add: k)
    have "usage_key (getIP req') = usage_key (getIP req)
             \<and> checkRateLimit e' req' s' = checkRateLimit e' req s'"
      if "x_forwarded_for req' = None"
      using getIP_no_header [OF that] g check_same_client [of req' req e' s'] by simp
    then show ?thesis using g k ev o by blast
  qed
  show ?thesis using a b c by blast
qed

theorem client_identifier_witness:
  "x_forwarded_for req_anon = None \<and> x_forwarded_for req_seven = None
   \<and> getIP req_anon = []
   \<and> getIP req_hi = ''203.0.113.7''
   \<and> \<not> isWhiteSpace (hd (getIP req_hi))
   \<and> fst (snd (POST (env_of post_ok) req_anon fresh_store))
       = [''AIDemoUsage:'' \<mapsto> \<lparr>used = 1, expiry = Some 173802\<rparr>]
   \<and> checkRateLimit (env_of post_ok) req_seven
        (fst (snd (POST (env_of post_ok) req_anon fresh_store)))
       = (\<lparr>allowed = True, reason = None, status = 200, new = False\<rparr>,
          [RedisGet ''AIDemoUsage:''])"
proof -
  have h1: "x_forwarded_for req_anon = None" by (simp add: req_anon_def)
  have h2: "x_forwarded_for req_seven = None" by (simp add: req_seven_def)
  have h3: "getIP req_hi \<noteq> []" by (simp add: getIP_req)
  have a: "allowed (fst (checkRateLimit (env_of post_ok) req_anon fresh_store))"
    and n: "new (fst (checkRateLimit (env_of post_ok) req_anon fresh_store))"
    by (simp_all add: check_fresh)
  have p: "payload_messages req_anon = Some [hello]" by (simp add: req_anon_def)
  have f: "fetchWithRotatedKey (env_of post_ok) (systemPrompt # slice_last 5 [hello]) None =
       (Inr (Data (Some ''Hello'')), [AxiosPost ''K1'' (body_of [hello])])"
    by (simp add: slice_last_def fetch_ok)
  have s: "fst (snd (POST (env_of post_ok) req_anon fresh_store))
       = [''AIDemoUsage:'' \<mapsto> \<lparr>used = 1, expiry = Some 173802\<rparr>]"
  proof -
    have "fst (snd (POST (env_of post_ok) req_anon fresh_store))
            = redis_set (now (env_of post_ok) + elapsed (env_of post_ok)) fresh_store
                (usage_key (getIP req_anon)) 1 172800"
      using n by (simp add: POST_replied [OF a p f])
    also have "\<dots> = [''AIDemoUsage:'' \<mapsto> \<lparr>used = 1, expiry = Some 173802\<rparr>]"
      by (simp add: getIP_req usage_key_def redis_set_def fresh_store_def env_of_def)
    finally show ?thesis .
  qed
  have c: "checkRateLimit (env_of post_ok) req_anon
             [''AIDemoUsage:'' \<mapsto> \<lparr>used = 1, expiry = Some 173802\<rparr>]
       = (\<lparr>allowed = True, reason = None, status = 200, new = False\<rparr>,
          [RedisGet ''AIDemoUsage:''])"
    by (simp add: checkRateLimit_def getIP_req usage_key_def redis_get_def live_def env_of_def
          IP_LIMIT_def Let_def)
  let ?S = "[''AIDemoUsage:'' \<mapsto> \<lparr>used = 1, expiry = Some 173802\<rparr>]"
  have "getIP req_hi = []
          \<or> (\<not> isWhiteSpace (hd (getIP req_hi)) \<and> \<not> isWhiteSpace (last (getIP req_hi)))"
    using client_identifier [of req_hi "env_of post_ok" fresh_store req_seven "env_of post_ok"
            fresh_store]
    by blast
  with h3 have w: "\<not> isWhiteSpace (hd (getIP req_hi))" by blast
  have "checkRateLimit (env_of post_ok) req_seven ?S = checkRateLimit (env_of post_ok) req_anon ?S"
    using client_identifier [of req_anon "env_of post_ok" fresh_store req_seven "env_of post_ok" ?S]
      h1 h2
    by blast
  with c have "checkRateLimit (env_of post_ok) req_seven ?S
       = (\<lparr>allowed = True, reason = None, status = 200, new = False\<rparr>,
          [RedisGet ''AIDemoUsage:''])"
    by simp
  with h1 h2 w s show ?thesis by (simp add: getIP_req)
qed

section \<open>Validation and the order of the checks\<close>

lemma POST_events_start:
  "take 2 (snd (snd (POST e req s))) =
     [ConsoleLogUrl (UPSTASH_REDIS_REST_URL e), RedisGet (usage_key (getIP req))]"
proof (cases "allowed (fst (checkRateLimit e req s))")
  case False
  then show ?thesis by (simp add: POST_denied)
next
  case True
  show ?thesis
  proof (cases "payload_messages req")
    case None
    with True show ?thesis by (simp add: POST_no_messages)
  next
    case (Some ms)
    obtain result es3 where
      f: "fetchWithRotatedKey e (systemPrompt # slice_last 5 ms) None = (result, es3)"
      by (cases "fetchWithRotatedKey e (systemPrompt # slice_last 5 ms) None")
    show ?thesis
      by (simp add: POST_dispatched [OF True Some f] Let_def
               split: sum.splits response_data.splits)
  qed
qed

lemma POST_status_400:
  assumes "http_status (fst (POST e req s)) = 400"
  shows "allowed (fst (checkRateLimit e req s)) \<and> payload_messages req = None"
proof (cases "allowed (fst (checkRateLimit e req s))")
  case False
  then show ?thesis using assms by (simp add: POST_denied)
next
  case True
  show ?thesis
  proof (cases "payload_messages req")
    case None
    with True show ?thesis by simp
  next
    case (Some ms)
    obtain result es3 where
      f: "fetchWithRotatedKey e (systemPrompt # slice_last 5 ms) None = (result, es3)"
      by (cases "fetchWithRotatedKey e (systemPrompt # slice_last 5 ms) None")
    show ?thesis
      using assms
      by (simp add: POST_dispatched [OF True Some f] Let_def
               split: sum.splits response_data.splits if_splits)
  qed
qed

text \<open>
  C1, as the specification states it, fails: a request whose \<open>messages\<close> array is
  empty passes the test \<open>!payload.messages\<close>; with a fresh client and a working
  credential it is sent upstream, answered 200 and charged to the quota. And with
  the client's quota exhausted the answer to it is 429, not 400.
\<close>

theorem empty_messages_counterexample:
  "payload_messages req_empty = Some []
   \<and> fst (POST (env_of post_ok) req_empty fresh_store)
       = \<lparr>http_status = 200, body_role = ''assistant'', body_content = Some ''Hello''\<rparr>
   \<and> calls (snd (snd (POST (env_of post_ok) req_empty fresh_store))) = [(''K1'', body_of [])]
   \<and> fst (snd (POST (env_of post_ok) req_empty fresh_store)) ''AIDemoUsage:203.0.113.7''
       = Some \<lparr>used = 1, expiry = Some 173802\<rparr>
   \<and> fresh_store ''AIDemoUsage:203.0.113.7'' = None
   \<and> http_status (fst (POST (env_of post_fail) req_empty (store_at 100))) = 429"
proof -
  have d: "\<not> allowed (fst (checkRateLimit (env_of post_fail) req_empty (store_at 100)))"
    by (simp add: check_store_full getIP_req)
  have x: "http_status (fst (POST (env_of post_fail) req_empty (store_at 100))) = 429"
    by (simp add: POST_denied [OF d])
  have a: "allowed (fst (checkRateLimit (env_of post_ok) req_empty fresh_store))"
    and n: "new (fst (checkRateLimit (env_of post_ok) req_empty fresh_store))"
    by (simp_all add: check_fresh)
  have p: "payload_messages req_empty = Some []" by (simp add: req_empty_def)
  have f: "fetchWithRotatedKey (env_of post_ok) (systemPrompt # slice_last 5 []) None =
       (Inr (Data (Some ''Hello'')), [AxiosPost ''K1'' (body_of [])])"
    by (simp add: slice_last_def fetch_ok)
  have h: "''Hello'' \<noteq> []" by simp
  note r = POST_replied [OF a p f h]
  have w: "fst (snd (POST (env_of post_ok) req_empty fresh_store))
          = redis_set (now (env_of post_ok) + elapsed (env_of post_ok)) fresh_store
              (usage_key (getIP req_empty)) 1 172800"
    using n by (simp add: r)
  have s: "fst (snd (POST (env_of post_ok) req_empty fresh_store)) ''AIDemoUsage:203.0.113.7''
       = Some \<lparr>used = 1, expiry = Some 173802\<rparr>"
    unfolding w by (simp add: getIP_req usage_key_def redis_set_def env_of_def)
  have c: "calls (snd (snd (POST (env_of post_ok) req_empty fresh_store))) = [(''K1'', body_of [])]"
    using POST_calls [OF a p f] by simp
  have q: "fst (POST (env_of post_ok) req_empty fresh_store)
       = \<lparr>http_status = 200, body_role = ''assistant'', body_content = Some ''Hello''\<rparr>"
    by (simp add: r)
  have e: "fresh_store ''AIDemoUsage:203.0.113.7'' = None" by (simp add: fresh_store_def)
  from p q c s e x show ?thesis by (intro conjI)
qed

text \<open>
  C1, amended. A request whose payload has no \<open>messages\<close> member (absent or
  \<open>null\<close>) and whose client passed the quota check is answered 400 with
  \<open>{role: "error", content: "No messages provided"}\<close>; no upstream call is made and the
  store is not written.
\<close>

theorem missing_messages_rejected:
  assumes "allowed (fst (checkRateLimit e req s))" and "payload_messages req = None"
  shows "fst (POST e req s) =
           \<lparr>http_status = 400, body_role = ''error'', body_content = Some ''No messages provided''\<rparr>
       \<and> fst (snd (POST e req s)) = s
       \<and> calls (snd (snd (POST e req s))) = []
       \<and> filter is_write (snd (snd (POST e req s))) = []"
  by (simp add: POST_no_messages [OF assms])

theorem missing_messages_rejected_witness:
  "allowed (fst (checkRateLimit (env_of post_ok) req_none (store_at 3)))
   \<and> payload_messages req_none = None
   \<and> fst (POST (env_of post_ok) req_none (store_at 3)) =
           \<lparr>http_status = 400, body_role = ''error'', body_content = Some ''No messages provided''\<rparr>
   \<and> fst (snd (POST (env_of post_ok) req_none (store_at 3))) = store_at 3
   \<and> calls (snd (snd (POST (env_of post_ok) req_none (store_at 3)))) = []"
proof -
  have h1: "allowed (fst (checkRateLimit (env_of post_ok) req_none (store_at 3)))"
    by (simp add: check_store_at getIP_req)
  have h2: "payload_messages req_none = None" by (simp add: req_none_def)
  show ?thesis using missing_messages_rejected [OF h1 h2] h1 h2 by simp
qed

text \<open>
  C2, as the specification states it, fails: with the client's quota exhausted, a
  request with an empty \<open>messages\<close> array and a request with no \<open>messages\<close> at all
  are both answered 429, and the store has been read by then.
\<close>

theorem validation_first_counterexample:
  "fst (POST (env_of post_ok) req_empty (store_at 100))
     = \<lparr>http_status = 429, body_role = ''error'',
        body_content = Some ''AI usage limit reached. Get full access when we launch.''\<rparr>
   \<and> fst (POST (env_of post_ok) req_none (store_at 100))
     = \<lparr>http_status = 429, body_role = ''error'',
        body_content = Some ''AI usage limit reached. Get full access when we launch.''\<rparr>
   \<and> snd (snd (POST (env_of post_ok) req_none (store_at 100)))
     = [ConsoleLogUrl (Some ''https://store''), RedisGet ''AIDemoUsage:203.0.113.7'']"
proof -
  have d1: "\<not> allowed (fst (checkRateLimit (env_of post_ok) req_empty (store_at 100)))"
    and d2: "\<not> allowed (fst (checkRateLimit (env_of post_ok) req_none (store_at 100)))"
    by (simp_all add: check_store_full getIP_req)
  have u: "UPSTASH_REDIS_REST_URL (env_of post_ok) = Some ''https://store''"
    by (simp add: env_of_def)
  show ?thesis
    by (simp add: POST_denied [OF d1] POST_denied [OF d2] u getIP_req usage_key_def)
qed

text \<open>
  C2, amended. The quota check comes first: every request begins by reading the
  client's record from the store, before the payload is looked at; a client over
  quota is answered 429 whatever the payload holds, with nothing else done; and an
  answer of 400 is given only to a request that passed the quota check and carries
  no \<open>messages\<close>.
\<close>

theorem quota_check_precedes_validation:
  "take 2 (snd (snd (POST e req s)))
     = [ConsoleLogUrl (UPSTASH_REDIS_REST_URL e), RedisGet (usage_key (getIP req))]
   \<and> (\<not> allowed (fst (checkRateLimit e req s)) \<longrightarrow>
        fst (POST e req s)
          = \<lparr>http_status = 429, body_role = ''error'',
             body_content = Some ''AI usage limit reached. Get full access when we launch.''\<rparr>
        \<and> snd (snd (POST e req s))
          = [ConsoleLogUrl (UPSTASH_REDIS_REST_URL e), RedisGet (usage_key (getIP req))])
   \<and> (http_status (fst (POST e req s)) = 400 \<longrightarrow>
        allowed (fst (checkRateLimit e req s)) \<and> payload_messages req = None)"
  using POST_events_start [of e req s] POST_status_400 [of e req s] POST_denied [of e req s]
  by simp

theorem quota_check_precedes_validation_witness:
  "\<not> allowed (fst (checkRateLimit (env_of post_ok) req_none (store_at 100)))
   \<and> http_status (fst (POST (env_of post_ok) req_none (store_at 100))) = 429
   \<and> http_status (fst (POST (env_of post_ok) req_none (store_at 3))) = 400
   \<and> allowed (fst (checkRateLimit (env_of post_ok) req_none (store_at 3)))
   \<and> take 2 (snd (snd (POST (env_of post_ok) req_none (store_at 3))))
       = [ConsoleLogUrl (Some ''https://store''), RedisGet ''AIDemoUsage:203.0.113.7'']"
proof -
  have h1: "\<not> allowed (fst (checkRateLimit (env_of post_ok) req_none (store_at 100)))"
    by (simp add: check_store_full getIP_req)
  have a: "allowed (fst (checkRateLimit (env_of post_ok) req_none (store_at 3)))"
    by (simp add: check_store_at getIP_req)
  have p: "payload_messages req_none = None" by (simp add: req_none_def)
  have h2: "http_status (fst (POST (env_of post_ok) req_none (store_at 3))) = 400"
    by (simp add: POST_no_messages [OF a p])
  have u: "UPSTASH_REDIS_REST_URL (env_of post_ok) = Some ''https://store''"
    by (simp add: env_of_def)
  show ?thesis
    using quota_check_precedes_validation [of "env_of post_ok" req_none "store_at 100"]
      quota_check_precedes_validation [of "env_of post_ok" req_none "store_at 3"] h1 h2
    by (simp add: u getIP_req usage_key_def)
qed

section \<open>Exhaustion of the pool\<close>

lemma sublist_key_line: "sublist k (''Key failed: '' @ k @ '', retrying...'')"
  by (rule sublist_appendI)

text \<open>
  C7, as the specification states it, fails: with both credentials rejected, the
  error thrown is the fixed message and nothing else, the same whatever the causes
  were, and each warning logged holds the credential in the clear.
\<close>

theorem exhaustion_error_counterexample:
  "fetchWithRotatedKey (env_of post_fail) [systemPrompt] None =
     (Inl (Error ''All keys failed. Please try again later.''),
      [AxiosPost ''K1'' (body_of []),
       ConsoleWarn ''Key failed: K1, retrying...'' ''Request failed with status code 401'',
       AxiosPost ''K2'' (body_of []),
       ConsoleWarn ''Key failed: K2, retrying...'' ''Request failed with status code 401''])
   \<and> keys (env_of post_fail) = [''K1'', ''K2'']
   \<and> sublist ''K1'' ''Key failed: K1, retrying...''
   \<and> sublist ''K2'' ''Key failed: K2, retrying...''"
proof -
  have "sublist ''K1'' (''Key failed: '' @ ''K1'' @ '', retrying...'')"
    and "sublist ''K2'' (''Key failed: '' @ ''K2'' @ '', retrying...'')"
    by (rule sublist_appendI)+
  then show ?thesis by (simp add: fetch_fail keys_env_of)
qed

text \<open>
  C7, amended. When every credential is exhausted without success, dispatch fails
  with the fixed error "All keys failed. Please try again later.", which carries
  neither the failure causes nor any credential. The causes go to the log only: one
  warning per credential, in trial order, whose text is "Key failed: " followed by
  the credential itself and ", retrying...", and whose second argument is the
  message of that credential's failure.
\<close>

theorem exhaustion_error:
  assumes "fetchWithRotatedKey e msgs mt = (Inl err, es)"
  shows "err = Error ''All keys failed. Please try again later.''
       \<and> warnings es
           = map (\<lambda>k. ''Key failed: '' @ k @ '', retrying...'') (shuffle (random e) (keys e))
       \<and> length (warnings es) = length (keys e)
       \<and> (\<forall>k \<in> set (keys e). \<exists>line \<in> set (warnings es). sublist k line)
       \<and> map Rejected (causes es) = outcomes (axios_post e) 0 (calls es)"
proof -
  obtain b r where l: "fetch_loop (axios_post e) b 0 (shuffle (random e) (keys e)) = (r, es)"
    and r: "Inl err = (case r of Some d \<Rightarrow> Inr d
                              | None \<Rightarrow> Inl (Error ''All keys failed. Please try again later.''))"
    using fetchWithRotatedKey_loop [OF assms] by blast
  from r have n: "r = None" and e: "err = Error ''All keys failed. Please try again later.''"
    by (cases r; simp)+
  from l n have "fetch_loop (axios_post e) b 0 (shuffle (random e) (keys e)) = (None, es)"
    by simp
  then have w: "warnings es
           = map (\<lambda>k. ''Key failed: '' @ k @ '', retrying...'') (shuffle (random e) (keys e))"
    and cs: "map Rejected (causes es) = outcomes (axios_post e) 0 (calls es)"
    using fetch_loop_None fetch_loop_causes by blast+
  have len: "length (warnings es) = length (keys e)"
    using mset_eq_length [OF mset_shuffle [of "random e" "keys e"]] by (simp add: w)
  have "\<exists>line \<in> set (warnings es). sublist k line" if "k \<in> set (keys e)" for k
  proof -
    have "k \<in> set (shuffle (random e) (keys e))"
      using that mset_eq_setD [OF mset_shuffle [of "random e" "keys e"]] by simp
    then have "''Key failed: '' @ k @ '', retrying...'' \<in> set (warnings es)"
      unfolding w set_map by (rule imageI)
    then show ?thesis using sublist_key_line by blast
  qed
  then show ?thesis using e w len cs by blast
qed

theorem exhaustion_error_witness:
  "fetchWithRotatedKey (env_of post_fail) [systemPrompt, hello] None =
     (Inl (Error ''All keys failed. Please try again later.''),
      [AxiosPost ''K1'' (body_of [hello]),
       ConsoleWarn ''Key failed: K1, retrying...'' ''Request failed with status code 401'',
       AxiosPost ''K2'' (body_of [hello]),
       ConsoleWarn ''Key failed: K2, retrying...'' ''Request failed with status code 401''])
   \<and> warnings
        [AxiosPost ''K1'' (body_of [hello]),
         ConsoleWarn ''Key failed: K1, retrying...'' ''Request failed with status code 401'',
         AxiosPost ''K2'' (body_of [hello]),
         ConsoleWarn ''Key failed: K2, retrying...'' ''Request failed with status code 401'']
       = [''Key failed: K1, retrying...'', ''Key failed: K2, retrying...'']
   \<and> ''K1'' \<in> set (keys (env_of post_fail))
   \<and> causes
        [AxiosPost ''K1'' (body_of [hello]),
         ConsoleWarn ''Key failed: K1, retrying...'' ''Request failed with status code 401'',
         AxiosPost ''K2'' (body_of [hello]),
         ConsoleWarn ''Key failed: K2, retrying...'' ''Request failed with status code 401'']
       = [''Request failed with status code 401'', ''Request failed with status code 401'']"
proof -
  note h = fetch_fail [of "[hello]"]
  have k: "''K1'' \<in> set (keys (env_of post_fail))" by (simp add: keys_env_of)
  show ?thesis using exhaustion_error [OF h] h k by (simp add: shuffle_env_of)
qed

section \<open>Replies without an assistant message\<close>

text \<open>
  C8, as the specification states it, fails: the first credential's call resolves
  with data that holds no assistant message; the dispatcher returns that data as its
  result, the second credential is never tried, and the handler answers the caller
  with an error payload for it.
\<close>

theorem blank_reply_counterexample:
  "fetchWithRotatedKey (env_of post_blank) [systemPrompt, hello] None
     = (Inr (Data None), [AxiosPost ''K1'' (body_of [hello])])
   \<and> shuffle (random (env_of post_blank)) (keys (env_of post_blank)) = [''K1'', ''K2'']
   \<and> attempted (snd (snd (POST (env_of post_blank) req_hi fresh_store))) = [''K1'']
   \<and> fst (POST (env_of post_blank) req_hi fresh_store)
     = \<lparr>http_status = 200, body_role = ''error'', body_content = Some ''No response received''\<rparr>"
proof -
  have a: "allowed (fst (checkRateLimit (env_of post_blank) req_hi fresh_store))"
    by (simp add: check_fresh)
  have p: "payload_messages req_hi = Some [hello]" by (simp add: req_hi_def)
  have f: "fetchWithRotatedKey (env_of post_blank) (systemPrompt # slice_last 5 [hello]) None
     = (Inr (Data None), [AxiosPost ''K1'' (body_of [hello])])"
    by (simp add: slice_last_def fetch_blank)
  have c: "attempted (snd (snd (POST (env_of post_blank) req_hi fresh_store))) = [''K1'']"
    using POST_calls [OF a p f] by (simp add: attempted_def)
  have q: "fst (POST (env_of post_blank) req_hi fresh_store)
     = \<lparr>http_status = 200, body_role = ''error'', body_content = Some ''No response received''\<rparr>"
    by (simp add: POST_dispatched [OF a p f] Let_def no_reply_def)
  show ?thesis using c q by (simp add: fetch_blank shuffle_env_of)
qed

text \<open>
  C8, amended. Only a rejected call (transport error or a status outside 2xx) makes
  the dispatcher go on to the next credential. A call that resolves ends the loop
  with its data, whatever the data holds, and no further credential is tried. When
  the data lacks an assistant message the failure is surfaced to the caller as an
  error payload and nothing is written to the store: \<open>{role: "error", content: "No
  response received"}\<close> with status 200 when the body is an object whose content is
  missing or empty, and the 500 payload of the \<open>catch\<close> branch when the body is
  \<open>null\<close>, where reading \<open>data.choices\<close> throws.
\<close>

theorem blank_reply_is_surfaced:
  assumes "allowed (fst (checkRateLimit e req s))"
    and "payload_messages req = Some ms"
    and "fetchWithRotatedKey e (systemPrompt # slice_last 5 ms) None = (Inr d, es)"
    and "lacks_message d"
  shows "fst (POST e req s)
           = (case d of
                Data reply \<Rightarrow>
                  \<lparr>http_status = 200, body_role = ''error'',
                   body_content = Some ''No response received''\<rparr>
              | DataNull \<Rightarrow>
                  \<lparr>http_status = 500, body_role = ''error'',
                   body_content = Some ''Some internal error occurred. Please try again later.''\<rparr>)
       \<and> body_role (fst (POST e req s)) = ''error''
       \<and> fst (snd (POST e req s)) = s
       \<and> filter is_write (snd (snd (POST e req s))) = []
       \<and> outcomes (axios_post e) 0 (calls es) \<noteq> []
       \<and> last (outcomes (axios_post e) 0 (calls es)) = Resolved d
       \<and> filter is_resolved (butlast (outcomes (axios_post e) 0 (calls es))) = []
       \<and> calls (snd (snd (POST e req s))) = calls es
       \<and> (\<forall>post b n key rest d'. post n key b = Resolved d' \<longrightarrow>
             fetch_loop post b n (key # rest) = (Some d', [AxiosPost key b]))
       \<and> (\<forall>post b n key rest m. post n key b = Rejected m \<longrightarrow>
             fst (fetch_loop post b n (key # rest)) = fst (fetch_loop post b (Suc n) rest)
             \<and> attempted (snd (fetch_loop post b n (key # rest)))
                 = key # attempted (snd (fetch_loop post b (Suc n) rest)))"
proof -
  obtain b r where l: "fetch_loop (axios_post e) b 0 (shuffle (random e) (keys e)) = (r, es)"
    and r: "Inr d = (case r of Some d \<Rightarrow> Inr d
                              | None \<Rightarrow> Inl (Error ''All keys failed. Please try again later.''))"
    using fetchWithRotatedKey_loop [OF assms(3)] by blast
  from r have "r = Some d" by (cases r) simp_all
  with l have "fetch_loop (axios_post e) b 0 (shuffle (random e) (keys e)) = (Some d, es)"
    by simp
  then have o: "outcomes (axios_post e) 0 (calls es) \<noteq> []
       \<and> last (outcomes (axios_post e) 0 (calls es)) = Resolved d"
    by (rule fetch_loop_Some)
  have bl: "filter is_resolved (butlast (outcomes (axios_post e) 0 (calls es))) = []"
    using l by (rule fetch_loop_butlast)
  have w: "filter is_write es = []" using l by (rule fetch_loop_no_write)
  let ?pre = "[ConsoleLogUrl (UPSTASH_REDIS_REST_URL e), RedisGet (usage_key (getIP req)),
               ConsoleLogPayload (Some ms)] @ es"
  have p: "POST e req s =
      (case d of
         Data reply \<Rightarrow>
           (\<lparr>http_status = 200, body_role = ''error'',
             body_content = Some ''No response received''\<rparr>, s, ?pre)
       | DataNull \<Rightarrow>
           (\<lparr>http_status = 500, body_role = ''error'',
             body_content = Some ''Some internal error occurred. Please try again later.''\<rparr>,
            s, ?pre @ [ConsoleError TypeError]))"
    using assms(4)
    by (cases d) (auto simp: POST_dispatched [OF assms(1-3)] Let_def lacks_message_def)
  have c: "calls (snd (snd (POST e req s))) = calls es"
    using assms(1-3) by (rule POST_calls)
  have g: "\<forall>post b n key rest d'. post n key b = Resolved d' \<longrightarrow>
             fetch_loop post b n (key # rest) = (Some d', [AxiosPost key b])"
    by simp
  have h: "\<forall>post b n key rest m. post n key b = Rejected m \<longrightarrow>
             fst (fetch_loop post b n (key # rest)) = fst (fetch_loop post b (Suc n) rest)
             \<and> attempted (snd (fetch_loop post b n (key # rest)))
                 = key # attempted (snd (fetch_loop post b (Suc n) rest))"
    by (simp add: attempted_def split: prod.splits)
  have q: "fst (POST e req s)
           = (case d of
                Data reply \<Rightarrow>
                  \<lparr>http_status = 200, body_role = ''error'',
                   body_content = Some ''No response received''\<rparr>
              | DataNull \<Rightarrow>
                  \<lparr>http_status = 500, body_role = ''error'',
                   body_content = Some ''Some internal error occurred. Please try again later.''\<rparr>)"
    and ro: "body_role (fst (POST e req s)) = ''error''"
    and st: "fst (snd (POST e req s)) = s"
    and fw: "filter is_write (snd (snd (POST e req s))) = []"
    using w by (simp_all add: p split: response_data.splits)
  from q ro st fw o bl c g h show ?thesis by (intro conjI) simp_all
qed

theorem blank_reply_is_surfaced_witness:
  "allowed (fst (checkRateLimit (env_of post_blank) req_hi (store_at 3)))
   \<and> allowed (fst (checkRateLimit (env_of post_null) req_hi (store_at 3)))
   \<and> payload_messages req_hi = Some [hello]
   \<and> fetchWithRotatedKey (env_of post_blank) (systemPrompt # slice_last 5 [hello]) None
       = (Inr (Data None), [AxiosPost ''K1'' (body_of [hello])])
   \<and> fetchWithRotatedKey (env_of post_null) (systemPrompt # slice_last 5 [hello]) None
       = (Inr DataNull, [AxiosPost ''K1'' (body_of [hello])])
   \<and> lacks_message (Data None)
   \<and> lacks_message DataNull
   \<and> post_blank 0 ''K1'' (body_of [hello]) = Resolved (Data None)
   \<and> post_second 0 ''K1'' (body_of [hello]) = Rejected ''timeout of 1000ms exceeded''
   \<and> fst (POST (env_of post_blank) req_hi (store_at 3))
       = \<lparr>http_status = 200, body_role = ''error'', body_content = Some ''No response received''\<rparr>
   \<and> fst (snd (POST (env_of post_blank) req_hi (store_at 3))) = store_at 3
   \<and> fst (POST (env_of post_null) req_hi (store_at 3))
       = \<lparr>http_status = 500, body_role = ''error'',
          body_content = Some ''Some internal error occurred. Please try again later.''\<rparr>
   \<and> fst (snd (POST (env_of post_null) req_hi (store_at 3))) = store_at 3
   \<and> fetch_loop post_blank (body_of [hello]) 0 [''K1'', ''K2'']
       = (Some (Data None), [AxiosPost ''K1'' (body_of [hello])])
   \<and> attempted (snd (fetch_loop post_second (body_of [hello]) 0 [''K1'', ''K2'']))
       = ''K1'' # attempted (snd (fetch_loop post_second (body_of [hello]) 1 [''K2'']))"
proof -
  have h1: "allowed (fst (checkRateLimit (env_of post_blank) req_hi (store_at 3)))"
    and h1': "allowed (fst (checkRateLimit (env_of post_null) req_hi (store_at 3)))"
    by (simp_all add: check_store_at getIP_req)
  have h2: "payload_messages req_hi = Some [hello]" by (simp add: req_hi_def)
  have h3: "fetchWithRotatedKey (env_of post_blank) (systemPrompt # slice_last 5 [hello]) None
       = (Inr (Data None), [AxiosPost ''K1'' (body_of [hello])])"
    by (simp add: slice_last_def fetch_blank)
  have h3': "fetchWithRotatedKey (env_of post_null) (systemPrompt # slice_last 5 [hello]) None
       = (Inr DataNull, [AxiosPost ''K1'' (body_of [hello])])"
    by (simp add: slice_last_def fetch_null)
  have h4: "lacks_message (Data None)" and h4': "lacks_message DataNull"
    by (simp_all add: lacks_message_def no_reply_def)
  have h5: "post_blank 0 ''K1'' (body_of [hello]) = Resolved (Data None)" by simp
  have h6: "post_second 0 ''K1'' (body_of [hello]) = Rejected ''timeout of 1000ms exceeded''"
    by simp
  note t = blank_reply_is_surfaced [OF h1 h2 h3 h4]
  note t' = blank_reply_is_surfaced [OF h1' h2 h3' h4']
  from t have a: "fst (POST (env_of post_blank) req_hi (store_at 3))
       = \<lparr>http_status = 200, body_role = ''error'', body_content = Some ''No response received''\<rparr>"
    and b: "fst (snd (POST (env_of post_blank) req_hi (store_at 3))) = store_at 3"
    by simp_all
  from t' have a': "fst (POST (env_of post_null) req_hi (store_at 3))
       = \<lparr>http_status = 500, body_role = ''error'',
          body_content = Some ''Some internal error occurred. Please try again later.''\<rparr>"
    and b': "fst (snd (POST (env_of post_null) req_hi (store_at 3))) = store_at 3"
    by simp_all
  from t h5 have c: "fetch_loop post_blank (body_of [hello]) 0 [''K1'', ''K2'']
       = (Some (Data None), [AxiosPost ''K1'' (body_of [hello])])"
    by blast
  from t h6 have d: "attempted (snd (fetch_loop post_second (body_of [hello]) 0 [''K1'', ''K2'']))
       = ''K1'' # attempted (snd (fetch_loop post_second (body_of [hello]) (Suc 0) [''K2'']))"
    by blast
  from h1 h1' h2 h3 h3' h4 h4' h5 h6 a b a' b' c d show ?thesis by (intro conjI) simp_all
qed

end
